theory Spec2Isabelle
  imports Main "HOL-Library.Multiset"
begin

section \<open>Values, errors and the world\<close>

text \<open>
  The note store keeps its records in one JSON file. What \<^verbatim>\<open>JSON.parse\<close> yields and
  what \<^verbatim>\<open>JSON.stringify\<close> takes is a JSON value; a record is a JSON object, kept as
  the list of its fields in insertion order. Numbers are the integers the records hold
  (byte counts, millisecond time values).
\<close>

datatype json =
    JNull
  | JBool bool
  | JNum int
  | JStr string
  | JArr "json list"
  | JObj "(string \<times> json) list"

text \<open>The exceptions the code can meet.\<close>

datatype error = TypeError | IOError | SyntaxError

text \<open>
  The backing file \<^verbatim>\<open>notes-data.json\<close>: it does not exist, it exists but cannot be
  read, its text is not JSON (the empty text included), or its text is the JSON value
  given. The text itself is abstracted to what \<^verbatim>\<open>JSON.parse\<close> makes of it.
\<close>

datatype file_state = Missing | Unreadable | Garbage | Content json

text \<open>
  The calls made to the Blob Store (cloudinary): \<^verbatim>\<open>upload_stream\<close> with its
  \<^verbatim>\<open>resource_type\<close>, \<^verbatim>\<open>folder\<close> and optional \<^verbatim>\<open>public_id\<close>, and
  \<^verbatim>\<open>destroy\<close> with the public id it was given (\<open>None\<close> is \<^verbatim>\<open>undefined\<close>) and its
  \<^verbatim>\<open>resource_type\<close>.
\<close>

datatype resource_type = Image | Raw

datatype blob_call =
    UploadCall resource_type string "string option"
  | DestroyCall "json option" resource_type

text \<open>
  The world outside the process: the backing file, whether \<^verbatim>\<open>fs.writeFileSync\<close>
  succeeds on it, how many times \<^verbatim>\<open>fs.writeFileSync\<close> has been called, and the Blob
  Store calls made so far, oldest first.
\<close>

record world =
  dataFile :: file_state
  writable :: bool
  fsWrites :: nat
  blobCalls :: "blob_call list"

section \<open>File system and JSON primitives\<close>

definition existsSync :: "world \<Rightarrow> bool" where
  "existsSync w = (dataFile w \<noteq> Missing)"

text \<open>\<^verbatim>\<open>JSON.parse(fs.readFileSync(FILE, 'utf8'))\<close>: either step may throw.\<close>

definition readJSON :: "world \<Rightarrow> error + json" where
  "readJSON w =
     (case dataFile w of
        Missing \<Rightarrow> Inl IOError
      | Unreadable \<Rightarrow> Inl IOError
      | Garbage \<Rightarrow> Inl SyntaxError
      | Content j \<Rightarrow> Inr j)"

text \<open>
  \<^verbatim>\<open>fs.writeFileSync(FILE, JSON.stringify(v))\<close>: the file then holds text that parses to
  \<open>v\<close>, or the call throws and the file is as it was.
\<close>

definition writeFileSync :: "json \<Rightarrow> world \<Rightarrow> (error + unit) \<times> world" where
  "writeFileSync v w =
     (if writable w
      then (Inr (), w\<lparr>dataFile := Content v, fsWrites := Suc (fsWrites w)\<rparr>)
      else (Inl IOError, w\<lparr>fsWrites := Suc (fsWrites w)\<rparr>))"

text \<open>
  Property access \<^verbatim>\<open>v.k\<close> for the names the code reads (\<^verbatim>\<open>id\<close>, \<^verbatim>\<open>title\<close>,
  \<^verbatim>\<open>createdAt\<close>, \<^verbatim>\<open>publicId\<close>, \<^verbatim>\<open>type\<close>): a TypeError on \<^verbatim>\<open>null\<close>, the field of
  an object, \<^verbatim>\<open>undefined\<close> (\<open>None\<close>) on anything else.
\<close>

fun propOf :: "string \<Rightarrow> json \<Rightarrow> error + json option" where
  "propOf k JNull = Inl TypeError"
| "propOf k (JObj kvs) = Inr (map_of kvs k)"
| "propOf k v = Inr None"

text \<open>JavaScript truthiness of a value that may be \<^verbatim>\<open>undefined\<close>.\<close>

fun truthy :: "json option \<Rightarrow> bool" where
  "truthy None = False"
| "truthy (Some JNull) = False"
| "truthy (Some (JBool b)) = b"
| "truthy (Some (JNum n)) = (n \<noteq> 0)"
| "truthy (Some (JStr s)) = (s \<noteq> [])"
| "truthy (Some v) = True"

text \<open>\<^verbatim>\<open>notes.push(note)\<close>: only an array has \<^verbatim>\<open>push\<close>.\<close>

fun push :: "json \<Rightarrow> json \<Rightarrow> error + json list" where
  "push (JArr ns) note = Inr (ns @ [note])"
| "push v note = Inl TypeError"

text \<open>\<^verbatim>\<open>notes.find((n) => n.id === id)\<close> on the elements of an array.\<close>

fun find_id :: "string \<Rightarrow> json list \<Rightarrow> error + json option" where
  "find_id i [] = Inr None"
| "find_id i (n # ns) =
     (case propOf ''id'' n of
        Inl e \<Rightarrow> Inl e
      | Inr v \<Rightarrow> if v = Some (JStr i) then Inr (Some n) else find_id i ns)"

text \<open>\<^verbatim>\<open>notes.filter((n) => n.id !== id)\<close> on the elements of an array.\<close>

fun filter_id :: "string \<Rightarrow> json list \<Rightarrow> error + json list" where
  "filter_id i [] = Inr []"
| "filter_id i (n # ns) =
     (case propOf ''id'' n of
        Inl e \<Rightarrow> Inl e
      | Inr v \<Rightarrow>
          (case filter_id i ns of
             Inl e \<Rightarrow> Inl e
           | Inr r \<Rightarrow> Inr (if v \<noteq> Some (JStr i) then n # r else r)))"

text \<open>
  \<^verbatim>\<open>notes.sort(cmp)\<close>, as the engine under Node (V8) sorts an array that holds no
  \<^verbatim>\<open>undefined\<close>. The result of \<^verbatim>\<open>cmp\<close> counts as negative or not; NaN (\<open>None\<close>)
  counts as zero. An exception of \<^verbatim>\<open>cmp\<close> ends the sort.

  The engine first takes the longest run at the front of the array: with
  \<^verbatim>\<open>cmp(a[1], a[0])\<close> negative the run is descending and goes on while
  \<^verbatim>\<open>cmp(a[i], a[i-1])\<close> is negative, and it is then reversed; otherwise it goes on
  while \<^verbatim>\<open>cmp(a[i], a[i-1])\<close> is not negative. \<open>count_run\<close> gives the number of
  elements after the second that belong to the run.
\<close>

definition negative :: "int option \<Rightarrow> bool" where
  "negative order = (case order of Some d \<Rightarrow> d < 0 | None \<Rightarrow> False)"

fun count_run ::
  "(json \<Rightarrow> json \<Rightarrow> error + int option) \<Rightarrow> bool \<Rightarrow> json \<Rightarrow> json list \<Rightarrow> error + nat" where
  "count_run cmp descending previous [] = Inr 0"
| "count_run cmp descending previous (current # rest) =
     (case cmp current previous of
        Inl e \<Rightarrow> Inl e
      | Inr order \<Rightarrow>
          if negative order = descending
          then (case count_run cmp descending current rest of
                  Inl e \<Rightarrow> Inl e
                | Inr k \<Rightarrow> Inr (Suc k))
          else Inr 0)"

text \<open>
  Every later element is then put into the sorted front by binary search: the pivot is
  compared with the middle element of the segment still in question,
  \<^verbatim>\<open>cmp(pivot, a[mid])\<close> with \<^verbatim>\<open>mid = left + ((right - left) >> 1)\<close>, and goes into
  the left part when the result is negative, into the part right of the middle
  otherwise.
\<close>

function binary_insert ::
  "(json \<Rightarrow> json \<Rightarrow> error + int option) \<Rightarrow> json \<Rightarrow> json list \<Rightarrow> error + json list" where
  "binary_insert cmp pivot seg =
     (if seg = [] then Inr [pivot]
      else
        (case cmp pivot (seg ! (length seg div 2)) of
           Inl e \<Rightarrow> Inl e
         | Inr order \<Rightarrow>
             if negative order
             then (case binary_insert cmp pivot (take (length seg div 2) seg) of
                     Inl e \<Rightarrow> Inl e
                   | Inr r \<Rightarrow> Inr (r @ drop (length seg div 2) seg))
             else (case binary_insert cmp pivot (drop (Suc (length seg div 2)) seg) of
                     Inl e \<Rightarrow> Inl e
                   | Inr r \<Rightarrow> Inr (take (Suc (length seg div 2)) seg @ r))))"
  by pat_completeness auto
termination
  by (relation "measure (\<lambda>(cmp, pivot, seg). length seg)") auto

declare binary_insert.simps [simp del]

fun insert_rest ::
  "(json \<Rightarrow> json \<Rightarrow> error + int option) \<Rightarrow> json list \<Rightarrow> json list \<Rightarrow> error + json list" where
  "insert_rest cmp front [] = Inr front"
| "insert_rest cmp front (pivot # rest) =
     (case binary_insert cmp pivot front of
        Inl e \<Rightarrow> Inl e
      | Inr front' \<Rightarrow> insert_rest cmp front' rest)"

text \<open>
  An array of fewer than two elements is returned as it is, without any call of
  \<^verbatim>\<open>cmp\<close>. For an array of fewer than 64 elements this is the engine's sort step by
  step; a longer array the engine cuts into runs of at least 32 elements, sorted in this
  way, and merges them, which gives the same array whenever \<^verbatim>\<open>cmp\<close> is a consistent
  order.
\<close>

fun array_sort ::
  "(json \<Rightarrow> json \<Rightarrow> error + int option) \<Rightarrow> json list \<Rightarrow> error + json list" where
  "array_sort cmp (first # second # rest) =
     (case cmp second first of
        Inl e \<Rightarrow> Inl e
      | Inr order \<Rightarrow>
          (case count_run cmp (negative order) second rest of
             Inl e \<Rightarrow> Inl e
           | Inr k \<Rightarrow>
               insert_rest cmp
                 (if negative order then rev (first # second # take k rest)
                  else first # second # take k rest)
                 (drop k rest)))"
| "array_sort cmp xs = Inr xs"

section \<open>The note store, \<^verbatim>\<open>api/store.js\<close>\<close>

text \<open>
  Module initialisation: \<^verbatim>\<open>if (!fs.existsSync(STORE_FILE)) fs.writeFileSync(STORE_FILE,
  JSON.stringify([]))\<close>, outside any \<^verbatim>\<open>try\<close>.
\<close>

definition bootstrap :: "world \<Rightarrow> (error + unit) \<times> world" where
  "bootstrap w = (if \<not> existsSync w then writeFileSync (JArr []) w else (Inr (), w))"

definition readFile :: "world \<Rightarrow> json \<times> world" where
  "readFile w = (case readJSON w of Inl e \<Rightarrow> (JArr [], w) | Inr j \<Rightarrow> (j, w))"

definition writeFile :: "json list \<Rightarrow> world \<Rightarrow> world" where
  "writeFile notes w = (case writeFileSync (JArr notes) w of (r, w') \<Rightarrow> w')"

text \<open>
  The comparator of \<^verbatim>\<open>getNotes\<close>, \<^verbatim>\<open>new Date(b.createdAt) - new Date(a.createdAt)\<close>.
  The time value that the \<^verbatim>\<open>Date\<close> constructor gives a value (\<open>None\<close> for an invalid
  date) is the library's, the parameter \<open>newDate\<close>. The parameter always answers: the
  constructor throws only on an object whose own \<^verbatim>\<open>toString\<close> and \<^verbatim>\<open>valueOf\<close> are no
  functions, which no \<^verbatim>\<open>createdAt\<close> of a record is.
\<close>

definition compareCreatedAt ::
  "(json option \<Rightarrow> int option) \<Rightarrow> json \<Rightarrow> json \<Rightarrow> error + int option" where
  "compareCreatedAt newDate a b =
     (case propOf ''createdAt'' b of
        Inl e \<Rightarrow> Inl e
      | Inr vb \<Rightarrow>
          (case propOf ''createdAt'' a of
             Inl e \<Rightarrow> Inl e
           | Inr va \<Rightarrow>
               Inr (case newDate vb of
                      None \<Rightarrow> None
                    | Some tb \<Rightarrow> (case newDate va of None \<Rightarrow> None | Some ta \<Rightarrow> Some (tb - ta)))))"

definition getNotes ::
  "(json option \<Rightarrow> int option) \<Rightarrow> world \<Rightarrow> (error + json list) \<times> world" where
  "getNotes newDate w =
     (case readFile w of
        (JArr ns, w') \<Rightarrow> (array_sort (compareCreatedAt newDate) ns, w')
      | (v, w') \<Rightarrow> (Inl TypeError, w'))"

text \<open>
  \<^verbatim>\<open>addNote\<close> returns the note it was given; the log line after the write reads
  \<^verbatim>\<open>note.title\<close>.
\<close>

definition addNote :: "json \<Rightarrow> world \<Rightarrow> (error + json) \<times> world" where
  "addNote note w =
     (case readFile w of
        (notes, w1) \<Rightarrow>
          (case push notes note of
             Inl e \<Rightarrow> (Inl e, w1)
           | Inr ns \<Rightarrow>
               (let w2 = writeFile ns w1
                in case propOf ''title'' note of
                     Inl e \<Rightarrow> (Inl e, w2)
                   | Inr t \<Rightarrow> (Inr note, w2))))"

definition deleteNote :: "string \<Rightarrow> world \<Rightarrow> (error + unit) \<times> world" where
  "deleteNote i w =
     (case readFile w of
        (JArr ns, w1) \<Rightarrow>
          (case filter_id i ns of
             Inl e \<Rightarrow> (Inl e, w1)
           | Inr newNotes \<Rightarrow> (Inr (), writeFile newNotes w1))
      | (v, w1) \<Rightarrow> (Inl TypeError, w1))"

definition findNote :: "string \<Rightarrow> world \<Rightarrow> (error + json option) \<times> world" where
  "findNote i w =
     (case readFile w of
        (JArr ns, w1) \<Rightarrow> (find_id i ns, w1)
      | (v, w1) \<Rightarrow> (Inl TypeError, w1))"

section \<open>The second store module (same operations, no sorting, writes not guarded)\<close>

definition bootstrap_alt :: "world \<Rightarrow> (error + unit) \<times> world" where
  "bootstrap_alt w = (if \<not> existsSync w then writeFileSync (JArr []) w else (Inr (), w))"

definition getNotes_alt :: "world \<Rightarrow> json \<times> world" where
  "getNotes_alt w = (case readJSON w of Inl e \<Rightarrow> (JArr [], w) | Inr j \<Rightarrow> (j, w))"

definition addNote_alt :: "json \<Rightarrow> world \<Rightarrow> (error + unit) \<times> world" where
  "addNote_alt note w =
     (case getNotes_alt w of
        (notes, w1) \<Rightarrow>
          (case push notes note of
             Inl e \<Rightarrow> (Inl e, w1)
           | Inr ns \<Rightarrow> writeFileSync (JArr ns) w1))"

definition deleteNote_alt :: "string \<Rightarrow> world \<Rightarrow> (error + unit) \<times> world" where
  "deleteNote_alt i w =
     (case getNotes_alt w of
        (JArr ns, w1) \<Rightarrow>
          (case filter_id i ns of
             Inl e \<Rightarrow> (Inl e, w1)
           | Inr notes \<Rightarrow> writeFileSync (JArr notes) w1)
      | (v, w1) \<Rightarrow> (Inl TypeError, w1))"

definition findNote_alt :: "string \<Rightarrow> world \<Rightarrow> (error + json option) \<times> world" where
  "findNote_alt i w =
     (case getNotes_alt w of
        (JArr ns, w1) \<Rightarrow> (find_id i ns, w1)
      | (v, w1) \<Rightarrow> (Inl TypeError, w1))"

section \<open>Records and collections\<close>

text \<open>A record is a JSON object; its id is the string under \<^verbatim>\<open>id\<close>.\<close>

fun is_record :: "json \<Rightarrow> bool" where
  "is_record (JObj kvs) = True"
| "is_record v = False"

fun has_id :: "string \<Rightarrow> json \<Rightarrow> bool" where
  "has_id i (JObj kvs) = (map_of kvs ''id'' = Some (JStr i))"
| "has_id i v = False"

text \<open>The backing file holds the collection \<open>ns\<close>: a JSON array of records.\<close>

definition stored :: "world \<Rightarrow> json list \<Rightarrow> bool" where
  "stored w ns = (dataFile w = Content (JArr ns) \<and> list_all is_record ns)"

text \<open>
  The time value of a record's \<^verbatim>\<open>createdAt\<close>, as the comparator of \<^verbatim>\<open>getNotes\<close> reads
  it, and the order newest first: \<open>a\<close> may stand before \<open>b\<close> when \<open>a\<close> is not the older.
\<close>

fun createdTime :: "(json option \<Rightarrow> int option) \<Rightarrow> json \<Rightarrow> int option" where
  "createdTime newDate (JObj kvs) = newDate (map_of kvs ''createdAt'')"
| "createdTime newDate v = newDate None"

definition not_older :: "(json option \<Rightarrow> int option) \<Rightarrow> json \<Rightarrow> json \<Rightarrow> bool" where
  "not_older newDate a b =
     (case createdTime newDate a of
        None \<Rightarrow> True
      | Some ta \<Rightarrow> (case createdTime newDate b of None \<Rightarrow> True | Some tb \<Rightarrow> tb \<le> ta))"

text \<open>A record whose \<^verbatim>\<open>createdAt\<close> is a valid date.\<close>

definition dated :: "(json option \<Rightarrow> int option) \<Rightarrow> json \<Rightarrow> bool" where
  "dated newDate n = (is_record n \<and> createdTime newDate n \<noteq> None)"

section \<open>The HTTP layer\<close>

text \<open>
  A request to \<^verbatim>\<open>POST /api/upload\<close> after the multipart parser: \<^verbatim>\<open>req.file\<close> (absent
  when there was no file part) and the form fields of \<^verbatim>\<open>req.body\<close>, each a string or
  absent.
\<close>

record uploaded_file =
  originalname :: string
  mimetype :: string
  size_bytes :: nat

record upload_request =
  reqFile :: "uploaded_file option"
  title :: "string option"
  subject :: "string option"
  desc :: "string option"
  type :: "string option"

text \<open>
  What the surroundings give one request: whether the Blob Store upload is rejected or
  resolves with a \<^verbatim>\<open>secure_url\<close> and a \<^verbatim>\<open>public_id\<close>, whether \<^verbatim>\<open>destroy\<close> resolves,
  and the clock readings already as text: \<^verbatim>\<open>Date.now()\<close> in the public id,
  \<^verbatim>\<open>Date.now().toString()\<close> for the id, and the ISO-8601 text of \<^verbatim>\<open>new Date()\<close> for
  \<^verbatim>\<open>createdAt\<close> (a \<^verbatim>\<open>Date\<close> object is persisted and sent as that text).
\<close>

datatype upload_outcome = Rejected | Resolved string string

record env =
  uploadOutcome :: upload_outcome
  destroyResolves :: bool
  nowPublicId :: string
  nowId :: string
  nowCreatedAt :: string

text \<open>A response: its status code and the record it carries, if any.\<close>

record response =
  status :: nat
  payload :: "json option"

definition respond :: "nat \<Rightarrow> response" where
  "respond c = \<lparr>status = c, payload = None\<rparr>"

text \<open>
  \<^verbatim>\<open>String.prototype.trim\<close>. A string is the list of its UTF-8 bytes; \<open>whiteSpace\<close>
  lists the white space and line terminator characters of the language, each as its
  bytes: U+0009 to U+000D, U+0020, U+00A0, U+1680, U+2000 to U+200A, U+2028, U+2029,
  U+202F, U+205F, U+3000 and U+FEFF.
\<close>

definition whiteSpace :: "string list" where
  "whiteSpace =
     [[CHR 0x09], [CHR 0x0A], [CHR 0x0B], [CHR 0x0C], [CHR 0x0D], [CHR 0x20],
      [CHR 0xC2, CHR 0xA0],
      [CHR 0xE1, CHR 0x9A, CHR 0x80],
      [CHR 0xE2, CHR 0x80, CHR 0x80], [CHR 0xE2, CHR 0x80, CHR 0x81],
      [CHR 0xE2, CHR 0x80, CHR 0x82], [CHR 0xE2, CHR 0x80, CHR 0x83],
      [CHR 0xE2, CHR 0x80, CHR 0x84], [CHR 0xE2, CHR 0x80, CHR 0x85],
      [CHR 0xE2, CHR 0x80, CHR 0x86], [CHR 0xE2, CHR 0x80, CHR 0x87],
      [CHR 0xE2, CHR 0x80, CHR 0x88], [CHR 0xE2, CHR 0x80, CHR 0x89],
      [CHR 0xE2, CHR 0x80, CHR 0x8A],
      [CHR 0xE2, CHR 0x80, CHR 0xA8], [CHR 0xE2, CHR 0x80, CHR 0xA9],
      [CHR 0xE2, CHR 0x80, CHR 0xAF],
      [CHR 0xE2, CHR 0x81, CHR 0x9F],
      [CHR 0xE3, CHR 0x80, CHR 0x80],
      [CHR 0xEF, CHR 0xBB, CHR 0xBF]]"

text \<open>
  The number of bytes of the mark that \<open>s\<close> starts with, 0 when it starts with none, and
  the string without the marks at its start.
\<close>

definition markAt :: "string list \<Rightarrow> string \<Rightarrow> nat" where
  "markAt marks s =
     (case List.find (\<lambda>m. m \<noteq> [] \<and> take (length m) s = m) marks of
        None \<Rightarrow> 0
      | Some m \<Rightarrow> length m)"

function stripMarks :: "string list \<Rightarrow> string \<Rightarrow> string" where
  "stripMarks marks s =
     (if markAt marks s = 0 then s else stripMarks marks (drop (markAt marks s) s))"
  by pat_completeness auto
termination
proof (relation "measure (\<lambda>(marks, s). length s)")
  show "wf (measure (\<lambda>(marks, s). length s))" by simp
next
  fix marks :: "string list" and s :: string
  assume "markAt marks s \<noteq> 0"
  then obtain m where "m \<noteq> []" and "take (length m) s = m"
    by (auto simp: markAt_def find_Some_iff split: option.splits)
  then have "s \<noteq> []" by auto
  then show "((marks, drop (markAt marks s) s), (marks, s)) \<in> measure (\<lambda>(marks, s). length s)"
    using \<open>markAt marks s \<noteq> 0\<close> by simp
qed

declare stripMarks.simps [simp del]

definition trim :: "string \<Rightarrow> string" where
  "trim s = rev (stripMarks (map rev whiteSpace) (rev (stripMarks whiteSpace s)))"

text \<open>\<^verbatim>\<open>s || d\<close> for a string that may be absent: absent and empty are falsy.\<close>

fun orElse :: "string option \<Rightarrow> string \<Rightarrow> string" where
  "orElse None d = d"
| "orElse (Some s) d = (if s = [] then d else s)"

text \<open>\<^verbatim>\<open>!s\<close> for a string that may be absent.\<close>

fun falsy :: "string option \<Rightarrow> bool" where
  "falsy None = True"
| "falsy (Some s) = (s = [])"

subsection \<open>First server: its own file helpers, best-effort delete\<close>

text \<open>
  \<^verbatim>\<open>getNotes\<close> of the first server: the empty array when the file does not exist,
  \<^verbatim>\<open>JSON.parse(data || '[]')\<close> otherwise, and the empty array when that throws (an
  empty file yields the empty array either way).
\<close>

definition getNotes_v1 :: "world \<Rightarrow> json \<times> world" where
  "getNotes_v1 w =
     (if \<not> existsSync w then (JArr [], w)
      else (case readJSON w of Inl e \<Rightarrow> (JArr [], w) | Inr j \<Rightarrow> (j, w)))"

definition saveNotes :: "json list \<Rightarrow> world \<Rightarrow> world" where
  "saveNotes notes w = (case writeFileSync (JArr notes) w of (r, w') \<Rightarrow> w')"

text \<open>
  The note object the first upload handler builds once the Blob Store has answered with
  \<open>url\<close> and \<open>pid\<close>. The title is a non-empty string at this point; \<^verbatim>\<open>createdAt\<close>, a
  \<^verbatim>\<open>Date\<close> here, is written to the file and sent as its ISO-8601 text.
\<close>

definition newNote_v1 ::
  "env \<Rightarrow> upload_request \<Rightarrow> uploaded_file \<Rightarrow> string \<Rightarrow> string \<Rightarrow> json" where
  "newNote_v1 e req f url pid = JObj
     [(''id'', JStr (nowId e)),
      (''title'', JStr (trim (orElse (title req) []))),
      (''subject'', JStr (orElse (map_option trim (subject req)) [])),
      (''desc'', JStr (orElse (map_option trim (desc req)) [])),
      (''type'', JStr (orElse (type req) ''note'')),
      (''fileName'', JStr (originalname f)),
      (''fileUrl'', JStr url),
      (''publicId'', JStr pid),
      (''fileType'', JStr (mimetype f)),
      (''fileSize'', JNum (int (size_bytes f))),
      (''createdAt'', JStr (nowCreatedAt e))]"

definition upload_v1 :: "env \<Rightarrow> upload_request \<Rightarrow> world \<Rightarrow> response \<times> world" where
  "upload_v1 e req w =
     (case reqFile req of
        None \<Rightarrow> (respond 400, w)
      | Some f \<Rightarrow>
          if falsy (title req) then (respond 400, w)
          else
            (let resourceType = (if type req = Some ''image'' then Image else Raw);
                 w1 = w\<lparr>blobCalls := blobCalls w @
                        [UploadCall resourceType
                           (''campusnotes/'' @ orElse (type req) ''notes'')
                           (Some (nowPublicId e @ ''_'' @
                                  takeWhile (\<lambda>c. c \<noteq> CHR ''.'') (originalname f)))]\<rparr>
             in case uploadOutcome e of
                  Rejected \<Rightarrow> (respond 500, w1)
                | Resolved url pid \<Rightarrow>
                    (let note = newNote_v1 e req f url pid
                     in case getNotes_v1 w1 of
                          (notes, w2) \<Rightarrow>
                            (case push notes note of
                               Inl err \<Rightarrow> (respond 500, w2)
                             | Inr ns \<Rightarrow>
                                 (\<lparr>status = 201, payload = Some note\<rparr>, saveNotes ns w2)))))"

definition delete_v1 :: "env \<Rightarrow> string \<Rightarrow> world \<Rightarrow> response \<times> world" where
  "delete_v1 e i w =
     (case getNotes_v1 w of
        (JArr ns, w0) \<Rightarrow>
          (case find_id i ns of
             Inl err \<Rightarrow> (respond 500, w0)
           | Inr None \<Rightarrow> (respond 404, w0)
           | Inr (Some note) \<Rightarrow>
               (case propOf ''publicId'' note of
                  Inl err \<Rightarrow> (respond 500, w0)
                | Inr pid \<Rightarrow>
                    (let w1 =
                       (if truthy pid
                        then (case propOf ''type'' note of
                                Inl err \<Rightarrow> w0
                              | Inr t \<Rightarrow>
                                  w0\<lparr>blobCalls := blobCalls w0 @
                                       [DestroyCall pid
                                          (if t = Some (JStr ''image'') then Image else Raw)]\<rparr>)
                        else w0)
                     in case filter_id i ns of
                          Inl err \<Rightarrow> (respond 500, w1)
                        | Inr updatedNotes \<Rightarrow> (respond 200, saveNotes updatedNotes w1))))
      | (v, w0) \<Rightarrow> (respond 500, w0))"

subsection \<open>Second server: built on \<^verbatim>\<open>api/store.js\<close>, strict delete\<close>

text \<open>The note object of the second upload handler.\<close>

definition newNote_v2 ::
  "env \<Rightarrow> upload_request \<Rightarrow> uploaded_file \<Rightarrow> string \<Rightarrow> string \<Rightarrow> json" where
  "newNote_v2 e req f url pid = JObj
     [(''id'', JStr (nowId e)),
      (''title'', JStr (trim (orElse (title req) []))),
      (''subject'', JStr (orElse (map_option trim (subject req)) [])),
      (''desc'', JStr (orElse (map_option trim (desc req)) [])),
      (''type'', JStr (orElse (type req) ''note'')),
      (''fileUrl'', JStr url),
      (''publicId'', JStr pid),
      (''fileName'', JStr (originalname f)),
      (''fileType'', JStr (mimetype f)),
      (''fileSize'', JNum (int (size_bytes f))),
      (''createdAt'', JStr (nowCreatedAt e))]"

definition upload_v2 :: "env \<Rightarrow> upload_request \<Rightarrow> world \<Rightarrow> response \<times> world" where
  "upload_v2 e req w =
     (case reqFile req of
        None \<Rightarrow> (respond 400, w)
      | Some f \<Rightarrow>
          if falsy (title req) then (respond 400, w)
          else
            (let resourceType = (if type req = Some ''image'' then Image else Raw);
                 w1 = w\<lparr>blobCalls := blobCalls w @
                        [UploadCall resourceType
                           (''campusnotes/'' @ orElse (type req) ''files'') None]\<rparr>
             in case uploadOutcome e of
                  Rejected \<Rightarrow> (respond 500, w1)
                | Resolved url pid \<Rightarrow>
                    (let note = newNote_v2 e req f url pid
                     in case addNote note w1 of
                          (Inl err, w2) \<Rightarrow> (respond 500, w2)
                        | (Inr n, w2) \<Rightarrow> (\<lparr>status = 201, payload = Some note\<rparr>, w2))))"

definition delete_v2 :: "env \<Rightarrow> string \<Rightarrow> world \<Rightarrow> response \<times> world" where
  "delete_v2 e i w =
     (case findNote i w of
        (Inl err, w0) \<Rightarrow> (respond 500, w0)
      | (Inr None, w0) \<Rightarrow> (respond 404, w0)
      | (Inr (Some note), w0) \<Rightarrow>
          (case propOf ''publicId'' note of
             Inl err \<Rightarrow> (respond 500, w0)
           | Inr pid \<Rightarrow>
               (case propOf ''type'' note of
                  Inl err \<Rightarrow> (respond 500, w0)
                | Inr t \<Rightarrow>
                    (let w1 = w0\<lparr>blobCalls := blobCalls w0 @
                                 [DestroyCall pid
                                    (if t = Some (JStr ''image'') then Image else Raw)]\<rparr>
                     in if \<not> destroyResolves e then (respond 500, w1)
                        else (case deleteNote i w1 of
                                (Inl err, w2) \<Rightarrow> (respond 500, w2)
                              | (Inr u, w2) \<Rightarrow> (respond 200, w2))))))"

section \<open>Concrete records, worlds and requests\<close>

text \<open>
  The \<^verbatim>\<open>Date\<close> constructor for the examples below: \<^verbatim>\<open>undefined\<close> is an invalid date,
  \<^verbatim>\<open>null\<close> is time 0, a boolean is time 0 or 1, a number is its own time value within
  the range of dates, and the two ISO-8601 texts are the midnights they name. Any other
  text, array or object the constructor reads as text; none occurs below, and it is
  taken as an invalid date.
\<close>

fun exampleDate :: "json option \<Rightarrow> int option" where
  "exampleDate None = None"
| "exampleDate (Some JNull) = Some 0"
| "exampleDate (Some (JBool b)) = Some (if b then 1 else 0)"
| "exampleDate (Some (JNum n)) = (if \<bar>n\<bar> \<le> 8640000000000000 then Some n else None)"
| "exampleDate (Some (JStr s)) =
     (if s = ''2024-01-01T00:00:00.000Z'' then Some 1704067200000
      else if s = ''2024-01-02T00:00:00.000Z'' then Some 1704153600000
      else None)"
| "exampleDate (Some v) = None"

definition note_a :: json where
  "note_a = JObj
     [(''id'', JStr ''1704067200000''),
      (''title'', JStr ''Syllabus''),
      (''subject'', JStr ''Maths''),
      (''desc'', JStr []),
      (''type'', JStr ''note''),
      (''fileUrl'', JStr ''https://res.example/raw/syllabus.pdf''),
      (''publicId'', JStr ''campusnotes/note/syllabus''),
      (''fileName'', JStr ''syllabus.pdf''),
      (''fileType'', JStr ''application/pdf''),
      (''fileSize'', JNum 2048),
      (''createdAt'', JStr ''2024-01-01T00:00:00.000Z'')]"

definition note_b :: json where
  "note_b = JObj
     [(''id'', JStr ''1704153600000''),
      (''title'', JStr ''Campus map''),
      (''subject'', JStr []),
      (''desc'', JStr []),
      (''type'', JStr ''image''),
      (''fileUrl'', JStr ''https://res.example/image/map.png''),
      (''publicId'', JStr ''campusnotes/image/map''),
      (''fileName'', JStr ''map.png''),
      (''fileType'', JStr ''image/png''),
      (''fileSize'', JNum 4096),
      (''createdAt'', JStr ''2024-01-02T00:00:00.000Z'')]"

definition world_a :: world where
  "world_a = \<lparr>dataFile = Content (JArr [note_a]), writable = True, fsWrites = 0, blobCalls = []\<rparr>"

definition world_ab :: world where
  "world_ab =
     \<lparr>dataFile = Content (JArr [note_a, note_b]), writable = True, fsWrites = 0, blobCalls = []\<rparr>"

definition world_readonly :: world where
  "world_readonly =
     \<lparr>dataFile = Content (JArr [note_a]), writable = False, fsWrites = 0, blobCalls = []\<rparr>"

definition world_object :: world where
  "world_object = \<lparr>dataFile = Content (JObj []), writable = True, fsWrites = 0, blobCalls = []\<rparr>"

definition world_fresh :: world where
  "world_fresh = \<lparr>dataFile = Missing, writable = True, fsWrites = 0, blobCalls = []\<rparr>"

definition world_fresh_readonly :: world where
  "world_fresh_readonly = \<lparr>dataFile = Missing, writable = False, fsWrites = 0, blobCalls = []\<rparr>"

definition env_ok :: env where
  "env_ok =
     \<lparr>uploadOutcome = Resolved ''https://res.example/image/map.png'' ''campusnotes/image/map'',
      destroyResolves = True,
      nowPublicId = ''1704153599990'',
      nowId = ''1704153600000'',
      nowCreatedAt = ''2024-01-02T00:00:00.000Z''\<rparr>"

definition env_destroy_fails :: env where
  "env_destroy_fails = env_ok\<lparr>destroyResolves := False\<rparr>"

definition map_png :: uploaded_file where
  "map_png = \<lparr>originalname = ''map.png'', mimetype = ''image/png'', size_bytes = 4096\<rparr>"

definition request_map :: upload_request where
  "request_map =
     \<lparr>reqFile = Some map_png, title = Some ''Campus map'', subject = None, desc = None,
      type = Some ''image''\<rparr>"

definition request_blank_title :: upload_request where
  "request_blank_title = request_map\<lparr>title := Some ''   ''\<rparr>"

definition request_no_file :: upload_request where
  "request_no_file = request_map\<lparr>reqFile := None\<rparr>"

definition request_empty_title :: upload_request where
  "request_empty_title = request_map\<lparr>title := Some []\<rparr>"

text \<open>A record without \<^verbatim>\<open>createdAt\<close>, and a store that holds it between two dated ones.\<close>

definition note_undated :: json where
  "note_undated = JObj
     [(''id'', JStr ''1704100000000''),
      (''title'', JStr ''Timetable''),
      (''subject'', JStr []),
      (''desc'', JStr []),
      (''type'', JStr ''note''),
      (''fileUrl'', JStr ''https://res.example/raw/timetable.pdf''),
      (''publicId'', JStr ''campusnotes/note/timetable''),
      (''fileName'', JStr ''timetable.pdf''),
      (''fileType'', JStr ''application/pdf''),
      (''fileSize'', JNum 1024)]"

definition world_mixed :: world where
  "world_mixed =
     \<lparr>dataFile = Content (JArr [note_a, note_undated, note_b]), writable = True, fsWrites = 0,
      blobCalls = []\<rparr>"

text \<open>
  A record of a document stored in the millisecond in which \<open>env_ok\<close> reads the clock
  for its own id.
\<close>

definition note_same_id :: json where
  "note_same_id = JObj
     [(''id'', JStr ''1704153600000''),
      (''title'', JStr ''Reading list''),
      (''subject'', JStr []),
      (''desc'', JStr []),
      (''type'', JStr ''note''),
      (''fileUrl'', JStr ''https://res.example/raw/reading.pdf''),
      (''publicId'', JStr ''campusnotes/note/reading''),
      (''fileName'', JStr ''reading.pdf''),
      (''fileType'', JStr ''application/pdf''),
      (''fileSize'', JNum 512),
      (''createdAt'', JStr ''2024-01-02T00:00:00.000Z'')]"

definition world_same_id :: world where
  "world_same_id =
     \<lparr>dataFile = Content (JArr [note_same_id]), writable = True, fsWrites = 0, blobCalls = []\<rparr>"


section \<open>Facts about the array operations on records\<close>

lemma is_record_obj: "is_record n \<Longrightarrow> \<exists>kvs. n = JObj kvs"
  by (cases n) simp_all

lemma find_id_records:
  "list_all is_record ns \<Longrightarrow> find_id i ns = Inr (List.find (has_id i) ns)"
proof (induction ns)
  case Nil
  show ?case by simp
next
  case (Cons n ns)
  then obtain kvs where "n = JObj kvs" using is_record_obj by auto
  with Cons show ?case by simp
qed

lemma filter_id_records:
  "list_all is_record ns \<Longrightarrow> filter_id i ns = Inr (filter (\<lambda>n. \<not> has_id i n) ns)"
proof (induction ns)
  case Nil
  show ?case by simp
next
  case (Cons n ns)
  then obtain kvs where "n = JObj kvs" using is_record_obj by auto
  with Cons show ?case by simp
qed

lemma find_absent: "\<forall>n\<in>set ns. \<not> has_id i n \<Longrightarrow> List.find (has_id i) ns = None"
  by (simp add: find_None_iff)

lemma find_appended:
  "\<forall>n\<in>set ns. \<not> has_id i n \<Longrightarrow> has_id i r \<Longrightarrow> List.find (has_id i) (ns @ [r]) = Some r"
  by (induction ns) simp_all

lemma filter_absent: "\<forall>n\<in>set ns. \<not> has_id i n \<Longrightarrow> filter (\<lambda>n. \<not> has_id i n) ns = ns"
  by (simp add: filter_id_conv)

lemma compare_records:
  assumes "is_record a" and "is_record b"
  shows "compareCreatedAt newDate a b =
           Inr (case createdTime newDate b of
                  None \<Rightarrow> None
                | Some tb \<Rightarrow> (case createdTime newDate a of None \<Rightarrow> None | Some ta \<Rightarrow> Some (tb - ta)))"
proof -
  obtain ka kb where "a = JObj ka" and "b = JObj kb"
    using assms is_record_obj by blast
  then show ?thesis by (simp add: compareCreatedAt_def split: option.splits)
qed

lemma records_mset: "mset r = mset xs \<Longrightarrow> list_all is_record xs \<Longrightarrow> list_all is_record r"
  by (metis list_all_iff set_mset_mset)

lemma count_run_records:
  assumes "is_record previous" and "list_all is_record xs"
  shows "\<exists>k. count_run (compareCreatedAt newDate) d previous xs = Inr k \<and> k \<le> length xs"
  using assms
proof (induction xs arbitrary: previous)
  case Nil
  show ?case by simp
next
  case (Cons x xs)
  then have x: "is_record x" and xs: "list_all is_record xs" by simp_all
  obtain v where v: "compareCreatedAt newDate x previous = Inr v"
    using compare_records [OF x Cons.prems(1)] by blast
  obtain k where "count_run (compareCreatedAt newDate) d x xs = Inr k" and "k \<le> length xs"
    using Cons.IH [OF x xs] by blast
  then show ?case using v by simp
qed

lemma binary_insert_records:
  assumes "is_record pivot" and "list_all is_record seg"
  shows "\<exists>r. binary_insert (compareCreatedAt newDate) pivot seg = Inr r
            \<and> mset r = mset (pivot # seg)"
  using assms(2)
proof (induction "length seg" arbitrary: seg rule: less_induct)
  case less
  show ?case
  proof (cases "seg = []")
    case True
    then show ?thesis by (simp add: binary_insert.simps)
  next
    case False
    define mid where "mid = length seg div 2"
    have mid: "mid < length seg" using False by (simp add: mid_def)
    have "is_record (seg ! mid)" using less.prems mid by (simp add: list_all_length)
    then obtain v where v: "compareCreatedAt newDate pivot (seg ! mid) = Inr v"
      using compare_records [OF assms(1)] by blast
    show ?thesis
    proof (cases "negative v")
      case True
      have "length (take mid seg) < length seg" using mid by simp
      moreover have "list_all is_record (take mid seg)"
        using less.prems by (auto simp: list_all_iff dest: in_set_takeD)
      ultimately obtain r where
        r: "binary_insert (compareCreatedAt newDate) pivot (take mid seg) = Inr r"
        and m: "mset r = mset (pivot # take mid seg)"
        using less.hyps by blast
      have "mset (r @ drop mid seg) = mset (pivot # seg)"
        using m by (metis append_take_drop_id mset.simps(2) mset_append union_mset_add_mset_left)
      then show ?thesis
        using False v True r
        by (simp add: binary_insert.simps [of _ pivot seg] mid_def [symmetric])
    next
      case neg: False
      have "length (drop (Suc mid) seg) < length seg" using mid by simp
      moreover have "list_all is_record (drop (Suc mid) seg)"
        using less.prems by (auto simp: list_all_iff dest: in_set_dropD)
      ultimately obtain r where
        r: "binary_insert (compareCreatedAt newDate) pivot (drop (Suc mid) seg) = Inr r"
        and m: "mset r = mset (pivot # drop (Suc mid) seg)"
        using less.hyps by blast
      have "mset (take (Suc mid) seg @ r) = mset (pivot # seg)"
        using m
        by (metis append_take_drop_id mset.simps(2) mset_append union_mset_add_mset_right)
      then show ?thesis
        using False v neg r
        by (simp add: binary_insert.simps [of _ pivot seg] mid_def [symmetric])
    qed
  qed
qed

lemma insert_rest_records:
  assumes "list_all is_record xs" and "list_all is_record front"
  shows "\<exists>r. insert_rest (compareCreatedAt newDate) front xs = Inr r
            \<and> mset r = mset front + mset xs"
  using assms
proof (induction xs arbitrary: front)
  case Nil
  show ?case by simp
next
  case (Cons x xs)
  then have x: "is_record x" and xs: "list_all is_record xs" by simp_all
  obtain a where a: "binary_insert (compareCreatedAt newDate) x front = Inr a"
    and ma: "mset a = mset (x # front)"
    using binary_insert_records [OF x Cons.prems(2)] by blast
  have "list_all is_record a"
    using records_mset [OF ma] x Cons.prems(2) by simp
  from Cons.IH [OF xs this] obtain r where
    "insert_rest (compareCreatedAt newDate) a xs = Inr r" and "mset r = mset a + mset xs"
    by blast
  then show ?case using a ma by simp
qed

lemma array_sort_records:
  assumes "list_all is_record xs"
  shows "\<exists>r. array_sort (compareCreatedAt newDate) xs = Inr r \<and> mset r = mset xs"
proof -
  consider "xs = []" | x where "xs = [x]" | first second rest where "xs = first # second # rest"
    by (cases xs rule: list.exhaust, simp, rename_tac a t, case_tac t, auto)
  then show ?thesis
  proof cases
    case 1
    then show ?thesis by simp
  next
    case 2
    then show ?thesis by simp
  next
    case 3
    then have xs: "xs = first # second # rest" by simp
  have f: "is_record first" and s: "is_record second" and r: "list_all is_record rest"
    using assms xs by simp_all
  obtain v where v: "compareCreatedAt newDate second first = Inr v"
    using compare_records [OF s f] by blast
  obtain k where k: "count_run (compareCreatedAt newDate) (negative v) second rest = Inr k"
    and kl: "k \<le> length rest"
    using count_run_records [OF s r] by blast
  define run where "run = first # second # take k rest"
  define front where "front = (if negative v then rev run else run)"
  have mf: "mset front = mset run" by (simp add: front_def)
  have "list_all is_record run"
    using f s r by (auto simp: run_def list_all_iff dest: in_set_takeD)
  then have fr: "list_all is_record front" by (simp add: front_def)
  have dr: "list_all is_record (drop k rest)"
    using r by (auto simp: list_all_iff dest: in_set_dropD)
  obtain res where res: "insert_rest (compareCreatedAt newDate) front (drop k rest) = Inr res"
    and mr: "mset res = mset front + mset (drop k rest)"
    using insert_rest_records [OF dr fr] by blast
  have "mset run + mset (drop k rest) = mset xs"
    unfolding run_def xs
    by (metis append_Cons append_take_drop_id mset_append)
  then have "mset res = mset xs" using mr mf by simp
  moreover have "array_sort (compareCreatedAt newDate) xs = Inr res"
    using v k res [unfolded front_def run_def] by (auto simp: xs)
  ultimately show ?thesis by blast
  qed
qed

lemma compare_dated:
  assumes "dated newDate a" and "dated newDate b"
  shows "\<exists>ta tb. createdTime newDate a = Some ta \<and> createdTime newDate b = Some tb
           \<and> compareCreatedAt newDate a b = Inr (Some (tb - ta))"
  using assms compare_records [of a b newDate] by (auto simp: dated_def)

lemma not_older_trans:
  "dated newDate b \<Longrightarrow> not_older newDate a b \<Longrightarrow> not_older newDate b c \<Longrightarrow> not_older newDate a c"
  by (auto simp: not_older_def dated_def split: option.splits)

lemma dated_take: "list_all (dated newDate) xs \<Longrightarrow> list_all (dated newDate) (take k xs)"
  by (auto simp: list_all_iff dest: in_set_takeD)

lemma dated_drop: "list_all (dated newDate) xs \<Longrightarrow> list_all (dated newDate) (drop k xs)"
  by (auto simp: list_all_iff dest: in_set_dropD)

lemma count_run_ascending:
  assumes "dated newDate previous" and "list_all (dated newDate) xs"
  shows "\<exists>k. count_run (compareCreatedAt newDate) False previous xs = Inr k \<and> k \<le> length xs
           \<and> sorted_wrt (not_older newDate) (previous # take k xs)"
  using assms
proof (induction xs arbitrary: previous)
  case Nil
  show ?case by simp
next
  case (Cons x xs)
  then have x: "dated newDate x" and xs: "list_all (dated newDate) xs" by simp_all
  obtain tx tp where t: "createdTime newDate x = Some tx" "createdTime newDate previous = Some tp"
    and c: "compareCreatedAt newDate x previous = Inr (Some (tp - tx))"
    using compare_dated [OF x Cons.prems(1)] by blast
  obtain k where k: "count_run (compareCreatedAt newDate) False x xs = Inr k"
    and kl: "k \<le> length xs" and s: "sorted_wrt (not_older newDate) (x # take k xs)"
    using Cons.IH [OF x xs] by blast
  show ?case
  proof (cases "tp < tx")
    case True
    then show ?thesis using c by (simp add: negative_def)
  next
    case False
    then have px: "not_older newDate previous x" using t by (simp add: not_older_def)
    have "\<forall>z\<in>set (take k xs). not_older newDate previous z"
      using s px not_older_trans [OF x] by auto
    then have "sorted_wrt (not_older newDate) (previous # take (Suc k) (x # xs))"
      using s px by simp
    then show ?thesis using c False k kl by (auto simp: negative_def)
  qed
qed

lemma count_run_descending:
  assumes "dated newDate previous" and "list_all (dated newDate) xs"
  shows "\<exists>k. count_run (compareCreatedAt newDate) True previous xs = Inr k \<and> k \<le> length xs
           \<and> sorted_wrt (not_older newDate) (rev (previous # take k xs))"
  using assms
proof (induction xs arbitrary: previous)
  case Nil
  show ?case by simp
next
  case (Cons x xs)
  then have x: "dated newDate x" and xs: "list_all (dated newDate) xs" by simp_all
  obtain tx tp where t: "createdTime newDate x = Some tx" "createdTime newDate previous = Some tp"
    and c: "compareCreatedAt newDate x previous = Inr (Some (tp - tx))"
    using compare_dated [OF x Cons.prems(1)] by blast
  obtain k where k: "count_run (compareCreatedAt newDate) True x xs = Inr k"
    and kl: "k \<le> length xs" and s: "sorted_wrt (not_older newDate) (rev (x # take k xs))"
    using Cons.IH [OF x xs] by blast
  show ?case
  proof (cases "tp < tx")
    case False
    then show ?thesis using c by (simp add: negative_def)
  next
    case True
    then have xp: "not_older newDate x previous" using t by (simp add: not_older_def)
    have "\<forall>z\<in>set (take k xs). not_older newDate z x"
      using s by (auto simp: sorted_wrt_append)
    then have "\<forall>z\<in>set (x # take k xs). not_older newDate z previous"
      using xp not_older_trans [OF x] by auto
    then have "sorted_wrt (not_older newDate) (rev (previous # take (Suc k) (x # xs)))"
      using s by (simp add: sorted_wrt_append)
    then show ?thesis using c True k kl by (auto simp: negative_def)
  qed
qed

lemma binary_insert_sorted:
  assumes "dated newDate pivot"
  shows "list_all (dated newDate) seg \<Longrightarrow> sorted_wrt (not_older newDate) seg \<Longrightarrow>
     \<exists>r. binary_insert (compareCreatedAt newDate) pivot seg = Inr r
        \<and> set r = insert pivot (set seg) \<and> sorted_wrt (not_older newDate) r"
proof (induction "length seg" arbitrary: seg rule: less_induct)
  case less
  show ?case
  proof (cases "seg = []")
    case True
    then show ?thesis by (simp add: binary_insert.simps)
  next
    case False
    define mid where "mid = length seg div 2"
    have mid: "mid < length seg" using False by (simp add: mid_def)
    define m where "m = seg ! mid"
    have split: "seg = take mid seg @ m # drop (Suc mid) seg"
      using mid by (simp add: m_def id_take_nth_drop)
    have srt: "sorted_wrt (not_older newDate) (take mid seg @ m # drop (Suc mid) seg)"
      using less.prems(2) split by simp
    have m: "dated newDate m" using less.prems(1) mid by (simp add: list_all_length m_def)
    obtain tp tm where t: "createdTime newDate pivot = Some tp" "createdTime newDate m = Some tm"
      and c: "compareCreatedAt newDate pivot m = Inr (Some (tm - tp))"
      using compare_dated [OF assms m] by blast
    show ?thesis
    proof (cases "tm < tp")
      case True
      then have pm: "not_older newDate pivot m" using t by (simp add: not_older_def)
      have "length (take mid seg) < length seg" using mid by simp
      moreover have "list_all (dated newDate) (take mid seg)"
        by (rule dated_take [OF less.prems(1)])
      moreover have "sorted_wrt (not_older newDate) (take mid seg)"
        using srt by (simp add: sorted_wrt_append)
      ultimately obtain r where
        r: "binary_insert (compareCreatedAt newDate) pivot (take mid seg) = Inr r"
        and sr: "set r = insert pivot (set (take mid seg))"
        and or: "sorted_wrt (not_older newDate) r"
        using less.hyps by blast
      have dm: "drop mid seg = m # drop (Suc mid) seg"
        using mid by (simp add: m_def Cons_nth_drop_Suc)
      have after: "\<forall>y\<in>set (drop (Suc mid) seg). not_older newDate m y"
        using srt by (simp add: sorted_wrt_append)
      then have "\<forall>y\<in>set (drop mid seg). not_older newDate pivot y"
        using pm dm not_older_trans [OF m] by auto
      moreover have "\<forall>x\<in>set (take mid seg). \<forall>y\<in>set (drop mid seg). not_older newDate x y"
        using srt dm by (auto simp: sorted_wrt_append)
      moreover have "sorted_wrt (not_older newDate) (drop mid seg)"
        using srt dm by (simp add: sorted_wrt_append)
      ultimately have "sorted_wrt (not_older newDate) (r @ drop mid seg)"
        using or sr by (auto simp: sorted_wrt_append)
      moreover have "set (r @ drop mid seg) = insert pivot (set seg)"
        using sr by (metis Un_insert_left append_take_drop_id set_append)
      ultimately show ?thesis
        using False c True r
        by (simp add: binary_insert.simps [of _ pivot seg] mid_def [symmetric]
            m_def [symmetric] negative_def)
    next
      case neg: False
      then have mp: "not_older newDate m pivot" using t by (simp add: not_older_def)
      have "length (drop (Suc mid) seg) < length seg" using mid by simp
      moreover have "list_all (dated newDate) (drop (Suc mid) seg)"
        by (rule dated_drop [OF less.prems(1)])
      moreover have "sorted_wrt (not_older newDate) (drop (Suc mid) seg)"
        using srt by (simp add: sorted_wrt_append)
      ultimately obtain r where
        r: "binary_insert (compareCreatedAt newDate) pivot (drop (Suc mid) seg) = Inr r"
        and sr: "set r = insert pivot (set (drop (Suc mid) seg))"
        and or: "sorted_wrt (not_older newDate) r"
        using less.hyps by blast
      have tm: "take (Suc mid) seg = take mid seg @ [m]"
        using mid by (simp add: m_def take_Suc_conv_app_nth)
      have before: "\<forall>x\<in>set (take mid seg). not_older newDate x m"
        using srt by (simp add: sorted_wrt_append)
      then have "\<forall>x\<in>set (take (Suc mid) seg). not_older newDate x pivot"
        using mp tm not_older_trans [OF m] by auto
      moreover have
        "\<forall>x\<in>set (take (Suc mid) seg). \<forall>y\<in>set (drop (Suc mid) seg). not_older newDate x y"
        using srt tm by (auto simp: sorted_wrt_append)
      moreover have "sorted_wrt (not_older newDate) (take (Suc mid) seg)"
        using srt tm by (auto simp: sorted_wrt_append)
      ultimately have "sorted_wrt (not_older newDate) (take (Suc mid) seg @ r)"
        using or sr by (auto simp: sorted_wrt_append)
      moreover have "set (take (Suc mid) seg @ r) = insert pivot (set seg)"
        using sr by (metis Un_insert_right append_take_drop_id set_append)
      ultimately show ?thesis
        using False c neg r
        by (simp add: binary_insert.simps [of _ pivot seg] mid_def [symmetric]
            m_def [symmetric] negative_def)
    qed
  qed
qed

lemma insert_rest_sorted:
  assumes "list_all (dated newDate) xs" and "list_all (dated newDate) front"
    and "sorted_wrt (not_older newDate) front"
  shows "\<exists>r. insert_rest (compareCreatedAt newDate) front xs = Inr r
            \<and> sorted_wrt (not_older newDate) r"
  using assms
proof (induction xs arbitrary: front)
  case Nil
  then show ?case by simp
next
  case (Cons x xs)
  then have x: "dated newDate x" and xs: "list_all (dated newDate) xs" by simp_all
  obtain a where a: "binary_insert (compareCreatedAt newDate) x front = Inr a"
    and sa: "set a = insert x (set front)" and oa: "sorted_wrt (not_older newDate) a"
    using binary_insert_sorted [OF x Cons.prems(2,3)] by blast
  have "list_all (dated newDate) a"
    using sa x Cons.prems(2) by (simp add: list_all_iff)
  from Cons.IH [OF xs this oa] show ?case using a by simp
qed

lemma array_sort_sorted:
  assumes "list_all (dated newDate) xs"
  shows "\<exists>r. array_sort (compareCreatedAt newDate) xs = Inr r
            \<and> sorted_wrt (not_older newDate) r"
proof -
  consider "xs = []" | x where "xs = [x]" | first second rest where "xs = first # second # rest"
    by (cases xs rule: list.exhaust, simp, rename_tac a t, case_tac t, auto)
  then show ?thesis
  proof cases
    case 1
    then show ?thesis by simp
  next
    case 2
    then show ?thesis by simp
  next
    case 3
    then have xs: "xs = first # second # rest" by simp
    have f: "dated newDate first" and s: "dated newDate second"
      and r: "list_all (dated newDate) rest"
      using assms xs by simp_all
    obtain ts tf where t: "createdTime newDate second = Some ts" "createdTime newDate first = Some tf"
      and c: "compareCreatedAt newDate second first = Inr (Some (tf - ts))"
      using compare_dated [OF s f] by blast
    show ?thesis
    proof (cases "tf < ts")
      case True
      then have sf: "not_older newDate second first" using t by (simp add: not_older_def)
      obtain k where k: "count_run (compareCreatedAt newDate) True second rest = Inr k"
        and o: "sorted_wrt (not_older newDate) (rev (second # take k rest))"
        using count_run_descending [OF s r] by blast
      have "\<forall>z\<in>set (take k rest). not_older newDate z second"
        using o by (auto simp: sorted_wrt_append)
      then have "\<forall>z\<in>set (second # take k rest). not_older newDate z first"
        using sf not_older_trans [OF s] by auto
      then have front: "sorted_wrt (not_older newDate) (rev (first # second # take k rest))"
        using o by (simp add: sorted_wrt_append)
      have "list_all (dated newDate) (rev (first # second # take k rest))"
        using f s dated_take [OF r, of k] by simp
      from insert_rest_sorted [OF dated_drop [OF r] this front, of k]
      show ?thesis using c True k by (simp add: xs negative_def)
    next
      case False
      then have fs: "not_older newDate first second" using t by (simp add: not_older_def)
      obtain k where k: "count_run (compareCreatedAt newDate) False second rest = Inr k"
        and o: "sorted_wrt (not_older newDate) (second # take k rest)"
        using count_run_ascending [OF s r] by blast
      have "\<forall>z\<in>set (take k rest). not_older newDate first z"
        using o fs not_older_trans [OF s] by auto
      then have front: "sorted_wrt (not_older newDate) (first # second # take k rest)"
        using o fs by simp
      have "list_all (dated newDate) (first # second # take k rest)"
        using f s dated_take [OF r, of k] by simp
      from insert_rest_sorted [OF dated_drop [OF r] this front, of k]
      show ?thesis using c False k by (simp add: xs negative_def)
    qed
  qed
qed

section \<open>Properties of the store\<close>

text \<open>
  C9. \<^verbatim>\<open>list()\<close> and \<^verbatim>\<open>find(id)\<close> only read: in both store modules, whatever the
  backing file holds, the world after the call is the world before it, so the file is
  untouched and no write is performed.
\<close>

theorem reads_change_nothing:
  "snd (getNotes newDate w) = w \<and> snd (findNote i w) = w
   \<and> snd (getNotes_alt w) = w \<and> snd (findNote_alt i w) = w"
  by (simp add: getNotes_def findNote_def getNotes_alt_def findNote_alt_def readFile_def
      split: sum.splits json.splits prod.splits)

theorem reads_change_nothing_witness:
  "snd (getNotes exampleDate world_ab) = world_ab
   \<and> snd (findNote ''1704153600000'' world_ab) = world_ab
   \<and> snd (getNotes_alt world_ab) = world_ab
   \<and> snd (findNote_alt ''1704153600000'' world_ab) = world_ab"
  using reads_change_nothing [of exampleDate world_ab "''1704153600000''"] by simp

text \<open>
  C1. Round trip: when the backing file holds a collection of records none of which has
  the id of the record \<open>r\<close>, and file writes succeed, \<^verbatim>\<open>add(r)\<close> followed at once by
  \<^verbatim>\<open>find(r.id)\<close> returns \<open>r\<close> itself, field for field, in both store modules.
\<close>

theorem add_find_roundtrip:
  assumes "stored w ns" and "\<forall>n\<in>set ns. \<not> has_id i n" and "has_id i r" and "writable w"
  shows "fst (addNote r w) = Inr r
       \<and> fst (findNote i (snd (addNote r w))) = Inr (Some r)
       \<and> fst (addNote_alt r w) = Inr ()
       \<and> fst (findNote_alt i (snd (addNote_alt r w))) = Inr (Some r)"
proof -
  obtain kvs where r: "r = JObj kvs" using assms(3) by (cases r) simp_all
  have recs: "list_all is_record (ns @ [r])" using assms(1) r by (simp add: stored_def)
  have found: "find_id i (ns @ [r]) = Inr (Some r)"
    using find_id_records [OF recs] find_appended [OF assms(2,3)] by simp
  have held: "dataFile w = Content (JArr ns)" using assms(1) by (simp add: stored_def)
  show ?thesis
    using found held assms(4) r
    by (simp add: addNote_def findNote_def addNote_alt_def findNote_alt_def getNotes_alt_def
        readFile_def readJSON_def writeFile_def writeFileSync_def)
qed

theorem add_find_roundtrip_witness:
  "stored world_a [note_a] \<and> \<not> has_id ''1704153600000'' note_a
   \<and> has_id ''1704153600000'' note_b \<and> writable world_a
   \<and> fst (addNote note_b world_a) = Inr note_b
   \<and> fst (findNote ''1704153600000'' (snd (addNote note_b world_a))) = Inr (Some note_b)
   \<and> fst (addNote_alt note_b world_a) = Inr ()
   \<and> fst (findNote_alt ''1704153600000'' (snd (addNote_alt note_b world_a))) = Inr (Some note_b)"
proof -
  have h1: "stored world_a [note_a]" by (simp add: stored_def world_a_def note_a_def)
  have h2: "\<forall>n\<in>set [note_a]. \<not> has_id ''1704153600000'' n" by (simp add: note_a_def)
  have h3: "has_id ''1704153600000'' note_b" by (simp add: note_b_def)
  have h4: "writable world_a" by (simp add: world_a_def)
  show ?thesis using h1 h2 h3 h4 add_find_roundtrip [OF h1 h2 h3 h4] by simp
qed

text \<open>
  C2, as stated, fails: the comparator of \<^verbatim>\<open>getNotes\<close> yields NaN against a record
  without a valid \<^verbatim>\<open>createdAt\<close>, which the sort takes as "equal". With such a record
  stored between an older and a newer one the array counts as already in order, and
  \<^verbatim>\<open>list()\<close> returns the older record before the newer one.
\<close>

theorem getNotes_older_before_newer:
  "stored world_mixed [note_a, note_undated, note_b]
   \<and> createdTime exampleDate note_a = Some 1704067200000
   \<and> createdTime exampleDate note_undated = None
   \<and> createdTime exampleDate note_b = Some 1704153600000
   \<and> fst (getNotes exampleDate world_mixed) = Inr [note_a, note_undated, note_b]"
  by (simp add: stored_def world_mixed_def getNotes_def readFile_def readJSON_def
      compareCreatedAt_def negative_def note_a_def note_undated_def note_b_def)

text \<open>
  C2, amended. In \<^verbatim>\<open>api/store.js\<close>, when the backing file holds a collection of
  records that all carry a valid \<^verbatim>\<open>createdAt\<close>, \<^verbatim>\<open>list()\<close> returns exactly the stored
  records, and whenever two of them have timestamps \<open>t1 < t2\<close> the one with \<open>t2\<close> comes
  first.
\<close>

theorem getNotes_newest_first:
  assumes "stored w ns" and "\<forall>n\<in>set ns. createdTime newDate n \<noteq> None"
  shows "\<exists>rs. fst (getNotes newDate w) = Inr rs \<and> mset rs = mset ns
           \<and> (\<forall>i j t1 t2. i < length rs \<and> j < length rs
                 \<and> createdTime newDate (rs ! i) = Some t1
                 \<and> createdTime newDate (rs ! j) = Some t2 \<and> t1 < t2 \<longrightarrow> j < i)"
proof -
  have held: "dataFile w = Content (JArr ns)" and recs: "list_all is_record ns"
    using assms(1) by (simp_all add: stored_def)
  have ds: "list_all (dated newDate) ns"
    using recs assms(2) by (simp add: list_all_iff dated_def)
  obtain rs where rs: "array_sort (compareCreatedAt newDate) ns = Inr rs"
    and m: "mset rs = mset ns"
    using array_sort_records [OF recs] by blast
  have srt: "sorted_wrt (not_older newDate) rs"
    using array_sort_sorted [OF ds] rs by auto
  have res: "fst (getNotes newDate w) = Inr rs"
    using held rs by (simp add: getNotes_def readFile_def readJSON_def)
  have "j < i"
    if b: "i < length rs" "j < length rs"
      and t: "createdTime newDate (rs ! i) = Some t1" "createdTime newDate (rs ! j) = Some t2"
      and lt: "t1 < t2"
    for i j t1 t2
  proof (rule ccontr)
    assume "\<not> j < i"
    then consider "i = j" | "i < j" by linarith
    then show False
    proof cases
      case 1
      then show False using t lt by simp
    next
      case 2
      then have "not_older newDate (rs ! i) (rs ! j)"
        using srt b by (simp add: sorted_wrt_iff_nth_less)
      then show False using t lt by (simp add: not_older_def)
    qed
  qed
  then show ?thesis using res m by blast
qed

theorem getNotes_newest_first_witness:
  "stored world_ab [note_a, note_b]
   \<and> createdTime exampleDate note_a = Some 1704067200000
   \<and> createdTime exampleDate note_b = Some 1704153600000
   \<and> fst (getNotes exampleDate world_ab) = Inr [note_b, note_a]"
proof -
  have h1: "stored world_ab [note_a, note_b]"
    by (simp add: stored_def world_ab_def note_a_def note_b_def)
  have ta: "createdTime exampleDate note_a = Some 1704067200000" by (simp add: note_a_def)
  have tb: "createdTime exampleDate note_b = Some 1704153600000" by (simp add: note_b_def)
  have h2: "\<forall>n\<in>set [note_a, note_b]. createdTime exampleDate n \<noteq> None"
    using ta tb by simp
  obtain rs where rs: "fst (getNotes exampleDate world_ab) = Inr rs"
    and m: "mset rs = mset [note_a, note_b]"
    and o: "\<forall>i j t1 t2. i < length rs \<and> j < length rs
              \<and> createdTime exampleDate (rs ! i) = Some t1
              \<and> createdTime exampleDate (rs ! j) = Some t2 \<and> t1 < t2 \<longrightarrow> j < i"
    using getNotes_newest_first [OF h1 h2] by blast
  have "fst (getNotes exampleDate world_ab) = Inr [note_b, note_a]"
    by (simp add: getNotes_def readFile_def readJSON_def world_ab_def compareCreatedAt_def
        negative_def note_a_def note_b_def)
  then show ?thesis using h1 ta tb rs by simp
qed

text \<open>
  C7, as stated, fails: a backing file whose text is JSON but not an array (here the
  object \<^verbatim>\<open>{}\<close>) makes \<^verbatim>\<open>list()\<close> of \<^verbatim>\<open>api/store.js\<close> raise a TypeError to its
  caller, and makes the other store module return the object, which is no sequence.
\<close>

theorem getNotes_raises_on_object:
  "dataFile world_object = Content (JObj [])
   \<and> fst (getNotes exampleDate world_object) = Inl TypeError
   \<and> fst (getNotes_alt world_object) = JObj []"
  by (simp add: world_object_def getNotes_def getNotes_alt_def readFile_def readJSON_def)

text \<open>
  C7, amended. When the backing file is missing, unreadable or unparseable, \<^verbatim>\<open>list()\<close>
  returns the empty sequence; when it holds a collection of records, \<^verbatim>\<open>list()\<close>
  returns a sequence of exactly those records. In both cases nothing is raised, in both
  store modules.
\<close>

theorem getNotes_returns_sequence:
  "(dataFile w = Missing \<or> dataFile w = Unreadable \<or> dataFile w = Garbage \<longrightarrow>
      getNotes newDate w = (Inr [], w) \<and> getNotes_alt w = (JArr [], w))
   \<and> (stored w ns \<longrightarrow>
        (\<exists>rs. getNotes newDate w = (Inr rs, w) \<and> mset rs = mset ns)
        \<and> getNotes_alt w = (JArr ns, w))"
proof -
  have "\<exists>rs. getNotes newDate w = (Inr rs, w) \<and> mset rs = mset ns" if "stored w ns"
  proof -
    have held: "dataFile w = Content (JArr ns)" and recs: "list_all is_record ns"
      using that by (simp_all add: stored_def)
    obtain rs where "array_sort (compareCreatedAt newDate) ns = Inr rs" and "mset rs = mset ns"
      using array_sort_records [OF recs] by blast
    then show ?thesis
      using held by (simp add: getNotes_def readFile_def readJSON_def)
  qed
  moreover have "getNotes_alt w = (JArr ns, w)" if "stored w ns"
    using that by (simp add: stored_def getNotes_alt_def readJSON_def)
  moreover have "getNotes newDate w = (Inr [], w) \<and> getNotes_alt w = (JArr [], w)"
    if "dataFile w = Missing \<or> dataFile w = Unreadable \<or> dataFile w = Garbage"
    using that
    by (auto simp: getNotes_def getNotes_alt_def readFile_def readJSON_def)
  ultimately show ?thesis by blast
qed

theorem getNotes_returns_sequence_witness:
  "dataFile world_fresh = Missing
   \<and> getNotes exampleDate world_fresh = (Inr [], world_fresh)
   \<and> getNotes_alt world_fresh = (JArr [], world_fresh)
   \<and> stored world_ab [note_a, note_b]
   \<and> (\<exists>rs. getNotes exampleDate world_ab = (Inr rs, world_ab) \<and> mset rs = mset [note_a, note_b])
   \<and> getNotes_alt world_ab = (JArr [note_a, note_b], world_ab)"
proof -
  have h1: "dataFile world_fresh = Missing" by (simp add: world_fresh_def)
  have h2: "stored world_ab [note_a, note_b]"
    by (simp add: stored_def world_ab_def note_a_def note_b_def)
  show ?thesis
    using h1 h2 getNotes_returns_sequence [of world_fresh exampleDate "[]"]
      getNotes_returns_sequence [of world_ab exampleDate "[note_a, note_b]"]
    by simp
qed

text \<open>
  C8, as stated, fails: when the backing file does not exist and cannot be written, module
  initialisation raises, and afterwards the file still does not exist.
\<close>

theorem bootstrap_raises_unwritable:
  "dataFile world_fresh_readonly = Missing
   \<and> fst (bootstrap world_fresh_readonly) = Inl IOError
   \<and> dataFile (snd (bootstrap world_fresh_readonly)) = Missing
   \<and> fst (bootstrap_alt world_fresh_readonly) = Inl IOError
   \<and> dataFile (snd (bootstrap_alt world_fresh_readonly)) = Missing"
  by (simp add: world_fresh_readonly_def bootstrap_def bootstrap_alt_def existsSync_def
      writeFileSync_def)

text \<open>
  C8, amended. Starting the store against a backing file that does not exist and can be
  written: initialisation returns, the file then holds the empty JSON array, \<^verbatim>\<open>list()\<close>
  returns the empty sequence, and running the initialisation again changes nothing. So
  it is in both store modules.
\<close>

theorem bootstrap_creates_empty_store:
  assumes "dataFile w = Missing" and "writable w"
  shows "fst (bootstrap w) = Inr ()
       \<and> dataFile (snd (bootstrap w)) = Content (JArr [])
       \<and> fst (getNotes newDate (snd (bootstrap w))) = Inr []
       \<and> bootstrap (snd (bootstrap w)) = (Inr (), snd (bootstrap w))
       \<and> fst (bootstrap_alt w) = Inr ()
       \<and> dataFile (snd (bootstrap_alt w)) = Content (JArr [])
       \<and> fst (getNotes_alt (snd (bootstrap_alt w))) = JArr []
       \<and> bootstrap_alt (snd (bootstrap_alt w)) = (Inr (), snd (bootstrap_alt w))"
  using assms
  by (simp add: bootstrap_def bootstrap_alt_def existsSync_def writeFileSync_def getNotes_def
      getNotes_alt_def readFile_def readJSON_def)

theorem bootstrap_creates_empty_store_witness:
  "dataFile world_fresh = Missing \<and> writable world_fresh
   \<and> fst (bootstrap world_fresh) = Inr ()
   \<and> dataFile (snd (bootstrap world_fresh)) = Content (JArr [])
   \<and> fst (getNotes exampleDate (snd (bootstrap world_fresh))) = Inr []
   \<and> bootstrap (snd (bootstrap world_fresh)) = (Inr (), snd (bootstrap world_fresh))
   \<and> fst (bootstrap_alt world_fresh) = Inr ()
   \<and> dataFile (snd (bootstrap_alt world_fresh)) = Content (JArr [])
   \<and> fst (getNotes_alt (snd (bootstrap_alt world_fresh))) = JArr []
   \<and> bootstrap_alt (snd (bootstrap_alt world_fresh)) = (Inr (), snd (bootstrap_alt world_fresh))"
proof -
  have h1: "dataFile world_fresh = Missing" by (simp add: world_fresh_def)
  have h2: "writable world_fresh" by (simp add: world_fresh_def)
  show ?thesis
    using h1 h2 bootstrap_creates_empty_store [OF h1 h2, of exampleDate] by simp
qed

text \<open>
  C6, as stated, fails in the second store module: its \<^verbatim>\<open>remove(id)\<close> writes outside
  any \<^verbatim>\<open>try\<close>, so with an id that is absent and a file that cannot be written it raises.
\<close>

theorem deleteNote_alt_raises_unwritable:
  "stored world_readonly [note_a] \<and> \<not> has_id ''404'' note_a
   \<and> fst (deleteNote_alt ''404'' world_readonly) = Inl IOError"
  by (simp add: stored_def world_readonly_def note_a_def deleteNote_alt_def getNotes_alt_def
      readJSON_def writeFileSync_def)

text \<open>
  C6, amended. For an id absent from the stored collection, \<^verbatim>\<open>remove(id)\<close> leaves the
  persisted array as it was in both store modules; in \<^verbatim>\<open>api/store.js\<close> it never
  raises, in the second module it raises exactly when the file write fails.
\<close>

theorem deleteNote_absent_id:
  assumes "stored w ns" and "\<forall>n\<in>set ns. \<not> has_id i n"
  shows "fst (deleteNote i w) = Inr ()
       \<and> dataFile (snd (deleteNote i w)) = dataFile w
       \<and> fst (deleteNote_alt i w) = (if writable w then Inr () else Inl IOError)
       \<and> dataFile (snd (deleteNote_alt i w)) = dataFile w"
proof -
  have held: "dataFile w = Content (JArr ns)" and recs: "list_all is_record ns"
    using assms(1) by (simp_all add: stored_def)
  have kept: "filter_id i ns = Inr ns"
    using filter_id_records [OF recs] filter_absent [OF assms(2)] by simp
  show ?thesis
    using held kept
    by (simp add: deleteNote_def deleteNote_alt_def getNotes_alt_def readFile_def readJSON_def
        writeFile_def writeFileSync_def)
qed

theorem deleteNote_absent_id_witness:
  "stored world_a [note_a] \<and> \<not> has_id ''404'' note_a
   \<and> fst (deleteNote ''404'' world_a) = Inr ()
   \<and> dataFile (snd (deleteNote ''404'' world_a)) = dataFile world_a
   \<and> fst (deleteNote_alt ''404'' world_a) = Inr ()
   \<and> dataFile (snd (deleteNote_alt ''404'' world_a)) = dataFile world_a"
proof -
  have h1: "stored world_a [note_a]" by (simp add: stored_def world_a_def note_a_def)
  have h2: "\<forall>n\<in>set [note_a]. \<not> has_id ''404'' n" by (simp add: note_a_def)
  have h3: "writable world_a" by (simp add: world_a_def)
  show ?thesis using h1 h2 h3 deleteNote_absent_id [OF h1 h2] by simp
qed

section \<open>Properties of the HTTP layer\<close>

lemma trim_blank: "trim ''   '' = []"
  by (simp add: trim_def stripMarks.simps markAt_def whiteSpace_def)

text \<open>
  C3, as stated, fails: a title of white space only trims to the empty string, yet both
  servers test \<^verbatim>\<open>!title\<close> before trimming, so the request is not answered 400: the file
  is uploaded to the Blob Store and a record with an empty title is stored.
\<close>

theorem upload_accepts_blank_title:
  "reqFile request_blank_title = Some map_png
   \<and> title request_blank_title = Some ''   '' \<and> trim ''   '' = []
   \<and> status (fst (upload_v1 env_ok request_blank_title world_a)) = 201
   \<and> blobCalls (snd (upload_v1 env_ok request_blank_title world_a)) =
       [UploadCall Image ''campusnotes/image'' (Some ''1704153599990_map'')]
   \<and> dataFile (snd (upload_v1 env_ok request_blank_title world_a)) \<noteq> dataFile world_a
   \<and> status (fst (upload_v2 env_ok request_blank_title world_a)) = 201
   \<and> blobCalls (snd (upload_v2 env_ok request_blank_title world_a)) =
       [UploadCall Image ''campusnotes/image'' None]
   \<and> dataFile (snd (upload_v2 env_ok request_blank_title world_a)) \<noteq> dataFile world_a"
  by (simp add: request_blank_title_def request_map_def map_png_def env_ok_def world_a_def
      upload_v1_def upload_v2_def newNote_v1_def newNote_v2_def trim_blank
      getNotes_v1_def saveNotes_def
      addNote_def readFile_def writeFile_def existsSync_def readJSON_def writeFileSync_def
      Let_def)

text \<open>
  C3, amended. A request to \<^verbatim>\<open>POST /api/upload\<close> that has no file part, or no title, or
  the empty string as title, is answered 400 by both servers, and the world is left as
  it was: no record is added and no Blob Store call is made.
\<close>

theorem upload_rejects_missing_parts:
  assumes "reqFile req = None \<or> title req = None \<or> title req = Some []"
  shows "upload_v1 e req w = (respond 400, w) \<and> upload_v2 e req w = (respond 400, w)"
  using assms by (auto simp: upload_v1_def upload_v2_def split: option.splits)

theorem upload_rejects_missing_parts_witness:
  "reqFile request_no_file = None
   \<and> upload_v1 env_ok request_no_file world_a = (respond 400, world_a)
   \<and> upload_v2 env_ok request_no_file world_a = (respond 400, world_a)
   \<and> title request_empty_title = Some []
   \<and> upload_v1 env_ok request_empty_title world_a = (respond 400, world_a)
   \<and> upload_v2 env_ok request_empty_title world_a = (respond 400, world_a)"
proof -
  have h1: "reqFile request_no_file = None" by (simp add: request_no_file_def)
  have h2: "title request_empty_title = Some []" by (simp add: request_empty_title_def)
  show ?thesis
    using h1 h2
      upload_rejects_missing_parts [of request_no_file env_ok world_a]
      upload_rejects_missing_parts [of request_empty_title env_ok world_a]
    by simp
qed

text \<open>
  C5. When the backing file holds a collection of records none of which has the id of
  the request, \<^verbatim>\<open>DELETE /api/data/:id\<close> is answered 404 by both servers and the world is
  left as it was: no Blob Store call, no write, the same collection.
\<close>

theorem delete_unknown_id:
  assumes "stored w ns" and "\<forall>n\<in>set ns. \<not> has_id i n"
  shows "delete_v1 e i w = (respond 404, w) \<and> delete_v2 e i w = (respond 404, w)"
proof -
  have held: "dataFile w = Content (JArr ns)" and recs: "list_all is_record ns"
    using assms(1) by (simp_all add: stored_def)
  have none: "find_id i ns = Inr None"
    using find_id_records [OF recs] find_absent [OF assms(2)] by simp
  show ?thesis
    using held none
    by (simp add: delete_v1_def delete_v2_def getNotes_v1_def findNote_def readFile_def
        existsSync_def readJSON_def)
qed

theorem delete_unknown_id_witness:
  "stored world_ab [note_a, note_b] \<and> \<not> has_id ''404'' note_a \<and> \<not> has_id ''404'' note_b
   \<and> delete_v1 env_ok ''404'' world_ab = (respond 404, world_ab)
   \<and> delete_v2 env_ok ''404'' world_ab = (respond 404, world_ab)"
proof -
  have h1: "stored world_ab [note_a, note_b]"
    by (simp add: stored_def world_ab_def note_a_def note_b_def)
  have h2: "\<forall>n\<in>set [note_a, note_b]. \<not> has_id ''404'' n"
    by (simp add: note_a_def note_b_def)
  show ?thesis using h1 h2 delete_unknown_id [OF h1 h2, of env_ok] by simp
qed

text \<open>
  C4, as stated, fails in the permissive server: the write of the filtered collection
  goes through \<^verbatim>\<open>saveNotes\<close>, which swallows a failing write. With a present record, a
  failing destroy call and a file that cannot be written, the answer is 200 and the
  record is still in the store.
\<close>

theorem delete_v1_keeps_record_unwritable:
  "stored world_readonly [note_a] \<and> has_id ''1704067200000'' note_a
   \<and> destroyResolves env_destroy_fails = False
   \<and> blobCalls (snd (delete_v1 env_destroy_fails ''1704067200000'' world_readonly)) =
       [DestroyCall (Some (JStr ''campusnotes/note/syllabus'')) Raw]
   \<and> status (fst (delete_v1 env_destroy_fails ''1704067200000'' world_readonly)) = 200
   \<and> dataFile (snd (delete_v1 env_destroy_fails ''1704067200000'' world_readonly)) =
       Content (JArr [note_a])"
  by (simp add: stored_def world_readonly_def note_a_def env_destroy_fails_def env_ok_def
      delete_v1_def getNotes_v1_def saveNotes_def existsSync_def readJSON_def
      writeFileSync_def respond_def)

text \<open>
  C4, amended. For a \<^verbatim>\<open>DELETE /api/data/:id\<close> on a present record where the Blob Store
  destroy call fails: the permissive server answers 200 and, when the file write
  succeeds, every record with that id is gone from the store (when the write fails the
  store is as it was); the strict server answers 500 and leaves the store as it was,
  without any write.
\<close>

theorem delete_when_destroy_fails:
  assumes "stored w ns" and "\<exists>n\<in>set ns. has_id i n" and "\<not> destroyResolves e"
  shows "status (fst (delete_v1 e i w)) = 200
       \<and> dataFile (snd (delete_v1 e i w)) =
           (if writable w then Content (JArr (filter (\<lambda>n. \<not> has_id i n) ns)) else dataFile w)
       \<and> status (fst (delete_v2 e i w)) = 500
       \<and> dataFile (snd (delete_v2 e i w)) = dataFile w
       \<and> fsWrites (snd (delete_v2 e i w)) = fsWrites w"
proof -
  have held: "dataFile w = Content (JArr ns)" and recs: "list_all is_record ns"
    using assms(1) by (simp_all add: stored_def)
  obtain hit where fnd: "List.find (has_id i) ns = Some hit"
    using assms(2) by (cases "List.find (has_id i) ns") (auto simp: find_None_iff)
  then have "has_id i hit" by (auto simp: find_Some_iff)
  then obtain kvs where hit: "hit = JObj kvs" by (cases hit) simp_all
  have found: "find_id i ns = Inr (Some hit)"
    using find_id_records [OF recs] fnd by simp
  have rest: "filter_id i ns = Inr (filter (\<lambda>n. \<not> has_id i n) ns)"
    by (rule filter_id_records [OF recs])
  have v1: "status (fst (delete_v1 e i w)) = 200
       \<and> dataFile (snd (delete_v1 e i w)) =
           (if writable w then Content (JArr (filter (\<lambda>n. \<not> has_id i n) ns)) else dataFile w)"
    using held found rest hit
    by (simp add: delete_v1_def getNotes_v1_def saveNotes_def existsSync_def readJSON_def
        writeFileSync_def respond_def Let_def)
  have v2: "status (fst (delete_v2 e i w)) = 500
       \<and> dataFile (snd (delete_v2 e i w)) = dataFile w
       \<and> fsWrites (snd (delete_v2 e i w)) = fsWrites w"
    using held found hit assms(3)
    by (simp add: delete_v2_def findNote_def readFile_def readJSON_def respond_def Let_def)
  show ?thesis using v1 v2 by simp
qed

theorem delete_when_destroy_fails_witness:
  "stored world_ab [note_a, note_b] \<and> has_id ''1704153600000'' note_b
   \<and> destroyResolves env_destroy_fails = False
   \<and> status (fst (delete_v1 env_destroy_fails ''1704153600000'' world_ab)) = 200
   \<and> dataFile (snd (delete_v1 env_destroy_fails ''1704153600000'' world_ab)) =
       Content (JArr [note_a])
   \<and> status (fst (delete_v2 env_destroy_fails ''1704153600000'' world_ab)) = 500
   \<and> dataFile (snd (delete_v2 env_destroy_fails ''1704153600000'' world_ab)) =
       Content (JArr [note_a, note_b])
   \<and> fsWrites (snd (delete_v2 env_destroy_fails ''1704153600000'' world_ab)) = 0"
proof -
  have h1: "stored world_ab [note_a, note_b]"
    by (simp add: stored_def world_ab_def note_a_def note_b_def)
  have b: "has_id ''1704153600000'' note_b" by (simp add: note_b_def)
  have a: "\<not> has_id ''1704153600000'' note_a" by (simp add: note_a_def)
  have h2: "\<exists>n\<in>set [note_a, note_b]. has_id ''1704153600000'' n" using b by simp
  have h3: "\<not> destroyResolves env_destroy_fails" by (simp add: env_destroy_fails_def)
  have w: "writable world_ab" "dataFile world_ab = Content (JArr [note_a, note_b])"
    "fsWrites world_ab = 0"
    by (simp_all add: world_ab_def)
  show ?thesis
    using h1 h3 a b w delete_when_destroy_fails [OF h1 h2 h3] by simp
qed

section \<open>Facts about the handlers\<close>

lemma type_image_iff: "orElse t ''note'' = ''image'' \<longleftrightarrow> t = Some ''image''"
  by (cases t) auto

lemma upload_v1_done:
  assumes "dataFile w = Content (JArr ns)" and "reqFile req = Some f"
    and "\<not> falsy (title req)" and "uploadOutcome e = Resolved url pid"
  shows "fst (upload_v1 e req w) = \<lparr>status = 201, payload = Some (newNote_v1 e req f url pid)\<rparr>"
    and "blobCalls (snd (upload_v1 e req w)) = blobCalls w @
          [UploadCall (if type req = Some ''image'' then Image else Raw)
             (''campusnotes/'' @ orElse (type req) ''notes'')
             (Some (nowPublicId e @ ''_'' @ takeWhile (\<lambda>c. c \<noteq> CHR ''.'') (originalname f)))]"
    and "dataFile (snd (upload_v1 e req w)) =
          Content (JArr (if writable w then ns @ [newNote_v1 e req f url pid] else ns))"
  using assms
  by (simp_all add: upload_v1_def getNotes_v1_def saveNotes_def existsSync_def readJSON_def
      writeFileSync_def Let_def)

lemma upload_v2_done:
  assumes "dataFile w = Content (JArr ns)" and "reqFile req = Some f"
    and "\<not> falsy (title req)" and "uploadOutcome e = Resolved url pid"
  shows "fst (upload_v2 e req w) = \<lparr>status = 201, payload = Some (newNote_v2 e req f url pid)\<rparr>"
    and "blobCalls (snd (upload_v2 e req w)) = blobCalls w @
          [UploadCall (if type req = Some ''image'' then Image else Raw)
             (''campusnotes/'' @ orElse (type req) ''files'') None]"
    and "dataFile (snd (upload_v2 e req w)) =
          Content (JArr (if writable w then ns @ [newNote_v2 e req f url pid] else ns))"
  using assms
  by (simp_all add: upload_v2_def addNote_def readFile_def writeFile_def readJSON_def
      writeFileSync_def Let_def newNote_v2_def)

lemma delete_v1_calls:
  assumes "dataFile u = Content (JArr ms)" and "list_all is_record ms"
  shows "blobCalls (snd (delete_v1 e i u)) = blobCalls u @
      (case List.find (has_id i) ms of
         None \<Rightarrow> []
       | Some (JObj kvs) \<Rightarrow>
           if truthy (map_of kvs ''publicId'')
           then [DestroyCall (map_of kvs ''publicId'')
                   (if map_of kvs ''type'' = Some (JStr ''image'') then Image else Raw)]
           else []
       | Some v \<Rightarrow> [])"
proof (cases "List.find (has_id i) ms")
  case None
  then show ?thesis
    using assms find_id_records [OF assms(2), of i]
    by (simp add: delete_v1_def getNotes_v1_def existsSync_def readJSON_def)
next
  case (Some hit)
  then have "has_id i hit" by (auto simp: find_Some_iff)
  then obtain kvs where hit: "hit = JObj kvs" by (cases hit) simp_all
  show ?thesis
    using assms(1) Some hit find_id_records [OF assms(2), of i]
      filter_id_records [OF assms(2), of i]
    by (simp add: delete_v1_def getNotes_v1_def saveNotes_def existsSync_def readJSON_def
        writeFileSync_def Let_def)
qed

lemma delete_v2_calls:
  assumes "dataFile u = Content (JArr ms)" and "list_all is_record ms"
  shows "blobCalls (snd (delete_v2 e i u)) = blobCalls u @
      (case List.find (has_id i) ms of
         None \<Rightarrow> []
       | Some (JObj kvs) \<Rightarrow>
           [DestroyCall (map_of kvs ''publicId'')
              (if map_of kvs ''type'' = Some (JStr ''image'') then Image else Raw)]
       | Some v \<Rightarrow> [])"
proof (cases "List.find (has_id i) ms")
  case None
  then show ?thesis
    using assms find_id_records [OF assms(2), of i]
    by (simp add: delete_v2_def findNote_def readFile_def readJSON_def)
next
  case (Some hit)
  then have "has_id i hit" by (auto simp: find_Some_iff)
  then obtain kvs where hit: "hit = JObj kvs" by (cases hit) simp_all
  show ?thesis
    using assms(1) Some hit find_id_records [OF assms(2), of i]
      filter_id_records [OF assms(2), of i]
    by (simp add: delete_v2_def findNote_def deleteNote_def readFile_def writeFile_def
        readJSON_def writeFileSync_def Let_def)
qed

text \<open>
  C10, as stated, fails: the id is the clock reading, and the delete handlers take the
  first stored record with the id of the request. When the store already holds a
  document record with the clock reading an image upload then gets, the upload call has
  the resource type \<^verbatim>\<open>image\<close>, and the delete of that id makes its destroy call for the
  older record, with the resource type \<^verbatim>\<open>raw\<close>.
\<close>

theorem upload_delete_other_resource_type:
  "stored world_same_id [note_same_id] \<and> has_id (nowId env_ok) note_same_id
   \<and> status (fst (upload_v1 env_ok request_map world_same_id)) = 201
   \<and> blobCalls (snd (delete_v1 env_ok (nowId env_ok)
         (snd (upload_v1 env_ok request_map world_same_id)))) =
       [UploadCall Image ''campusnotes/image'' (Some ''1704153599990_map''),
        DestroyCall (Some (JStr ''campusnotes/note/reading'')) Raw]
   \<and> status (fst (upload_v2 env_ok request_map world_same_id)) = 201
   \<and> blobCalls (snd (delete_v2 env_ok (nowId env_ok)
         (snd (upload_v2 env_ok request_map world_same_id)))) =
       [UploadCall Image ''campusnotes/image'' None,
        DestroyCall (Some (JStr ''campusnotes/note/reading'')) Raw]"
  by (simp add: stored_def world_same_id_def note_same_id_def env_ok_def request_map_def
      map_png_def upload_v1_def upload_v2_def delete_v1_def delete_v2_def newNote_v1_def
      newNote_v2_def getNotes_v1_def saveNotes_def addNote_def findNote_def deleteNote_def
      readFile_def writeFile_def existsSync_def readJSON_def writeFileSync_def Let_def)

text \<open>
  C10, amended. A well-formed upload whose Blob Store call resolves, into a collection
  that does not yet hold the new id: the record's \<^verbatim>\<open>type\<close> is \<^verbatim>\<open>image\<close> exactly when the
  upload call was given the resource type \<^verbatim>\<open>image\<close>, and a later delete of that id gives
  the destroy call the very resource type the upload call had. The destroy call is made
  when the record was written (the first server also wants a non-empty public id);
  otherwise the delete makes no Blob Store call at all.
\<close>

theorem upload_delete_same_resource_type:
  assumes "stored w ns" and "\<forall>n\<in>set ns. \<not> has_id (nowId e) n"
    and "reqFile req = Some f" and "\<not> falsy (title req)"
    and "uploadOutcome e = Resolved url pid"
  shows "(\<exists>rt folder p r.
            blobCalls (snd (upload_v1 e req w)) = blobCalls w @ [UploadCall rt folder p]
          \<and> payload (fst (upload_v1 e req w)) = Some r
          \<and> (rt = Image \<longleftrightarrow> propOf ''type'' r = Inr (Some (JStr ''image'')))
          \<and> blobCalls (snd (delete_v1 e' (nowId e) (snd (upload_v1 e req w)))) =
              blobCalls (snd (upload_v1 e req w)) @
              (if writable w \<and> pid \<noteq> [] then [DestroyCall (Some (JStr pid)) rt] else []))
       \<and> (\<exists>rt folder p r.
            blobCalls (snd (upload_v2 e req w)) = blobCalls w @ [UploadCall rt folder p]
          \<and> payload (fst (upload_v2 e req w)) = Some r
          \<and> (rt = Image \<longleftrightarrow> propOf ''type'' r = Inr (Some (JStr ''image'')))
          \<and> blobCalls (snd (delete_v2 e'' (nowId e) (snd (upload_v2 e req w)))) =
              blobCalls (snd (upload_v2 e req w)) @
              (if writable w then [DestroyCall (Some (JStr pid)) rt] else []))"
proof -
  have held: "dataFile w = Content (JArr ns)" and recs: "list_all is_record ns"
    using assms(1) by (simp_all add: stored_def)
  have absent: "List.find (has_id (nowId e)) ns = None"
    by (rule find_absent [OF assms(2)])
  define rt where "rt = (if type req = Some ''image'' then Image else Raw)"
  have rt: "rt = Image \<longleftrightarrow> orElse (type req) ''note'' = ''image''"
    by (simp add: rt_def type_image_iff)
  have rt': "(if orElse (type req) ''note'' = ''image'' then Image else Raw) = rt"
    by (simp add: rt_def type_image_iff)

  define r1 where "r1 = newNote_v1 e req f url pid"
  define u1 where "u1 = snd (upload_v1 e req w)"
  define ms1 where "ms1 = (if writable w then ns @ [r1] else ns)"
  note up1 = upload_v1_done [OF held assms(3,4,5), folded r1_def u1_def rt_def]
  have file1: "dataFile u1 = Content (JArr ms1)" using up1(3) by (simp add: ms1_def)
  have recs1: "list_all is_record ms1" using recs by (simp add: ms1_def r1_def newNote_v1_def)
  have id1: "has_id (nowId e) r1" by (simp add: r1_def newNote_v1_def)
  have find1: "List.find (has_id (nowId e)) ms1 = (if writable w then Some r1 else None)"
    using absent find_appended [OF assms(2) id1] by (simp add: ms1_def)
  have del1: "blobCalls (snd (delete_v1 e' (nowId e) u1)) = blobCalls u1 @
      (if writable w \<and> pid \<noteq> [] then [DestroyCall (Some (JStr pid)) rt] else [])"
    using delete_v1_calls [OF file1 recs1, of e' "nowId e"] find1 rt'
    by (simp add: r1_def newNote_v1_def)
  have t1: "rt = Image \<longleftrightarrow> propOf ''type'' r1 = Inr (Some (JStr ''image''))"
    using rt by (simp add: r1_def newNote_v1_def)
  have first: "\<exists>rt folder p r.
            blobCalls u1 = blobCalls w @ [UploadCall rt folder p]
          \<and> payload (fst (upload_v1 e req w)) = Some r
          \<and> (rt = Image \<longleftrightarrow> propOf ''type'' r = Inr (Some (JStr ''image'')))
          \<and> blobCalls (snd (delete_v1 e' (nowId e) u1)) =
              blobCalls u1 @
              (if writable w \<and> pid \<noteq> [] then [DestroyCall (Some (JStr pid)) rt] else [])"
    using up1(1,2) t1 del1 by (intro exI [of _ rt] exI [of _ r1]) auto

  define r2 where "r2 = newNote_v2 e req f url pid"
  define u2 where "u2 = snd (upload_v2 e req w)"
  define ms2 where "ms2 = (if writable w then ns @ [r2] else ns)"
  note up2 = upload_v2_done [OF held assms(3,4,5), folded r2_def u2_def rt_def]
  have file2: "dataFile u2 = Content (JArr ms2)" using up2(3) by (simp add: ms2_def)
  have recs2: "list_all is_record ms2" using recs by (simp add: ms2_def r2_def newNote_v2_def)
  have id2: "has_id (nowId e) r2" by (simp add: r2_def newNote_v2_def)
  have find2: "List.find (has_id (nowId e)) ms2 = (if writable w then Some r2 else None)"
    using absent find_appended [OF assms(2) id2] by (simp add: ms2_def)
  have del2: "blobCalls (snd (delete_v2 e'' (nowId e) u2)) = blobCalls u2 @
      (if writable w then [DestroyCall (Some (JStr pid)) rt] else [])"
    using delete_v2_calls [OF file2 recs2, of e'' "nowId e"] find2 rt'
    by (simp add: r2_def newNote_v2_def)
  have t2: "rt = Image \<longleftrightarrow> propOf ''type'' r2 = Inr (Some (JStr ''image''))"
    using rt by (simp add: r2_def newNote_v2_def)
  have second: "\<exists>rt folder p r.
            blobCalls u2 = blobCalls w @ [UploadCall rt folder p]
          \<and> payload (fst (upload_v2 e req w)) = Some r
          \<and> (rt = Image \<longleftrightarrow> propOf ''type'' r = Inr (Some (JStr ''image'')))
          \<and> blobCalls (snd (delete_v2 e'' (nowId e) u2)) =
              blobCalls u2 @
              (if writable w then [DestroyCall (Some (JStr pid)) rt] else [])"
    using up2(1,2) t2 del2 by (intro exI [of _ rt] exI [of _ r2]) auto
  show ?thesis using first second unfolding u1_def u2_def by blast
qed

theorem upload_delete_same_resource_type_witness:
  "stored world_a [note_a] \<and> \<not> has_id (nowId env_ok) note_a
   \<and> reqFile request_map = Some map_png \<and> \<not> falsy (title request_map)
   \<and> uploadOutcome env_ok =
       Resolved ''https://res.example/image/map.png'' ''campusnotes/image/map''
   \<and> blobCalls (snd (delete_v1 env_ok (nowId env_ok) (snd (upload_v1 env_ok request_map world_a)))) =
       [UploadCall Image ''campusnotes/image'' (Some ''1704153599990_map''),
        DestroyCall (Some (JStr ''campusnotes/image/map'')) Image]
   \<and> blobCalls (snd (delete_v2 env_ok (nowId env_ok) (snd (upload_v2 env_ok request_map world_a)))) =
       [UploadCall Image ''campusnotes/image'' None,
        DestroyCall (Some (JStr ''campusnotes/image/map'')) Image]"
proof -
  have h1: "stored world_a [note_a]" by (simp add: stored_def world_a_def note_a_def)
  have a: "\<not> has_id (nowId env_ok) note_a" by (simp add: env_ok_def note_a_def)
  then have h2: "\<forall>n\<in>set [note_a]. \<not> has_id (nowId env_ok) n" by simp
  have h3: "reqFile request_map = Some map_png" by (simp add: request_map_def)
  have h4: "\<not> falsy (title request_map)" by (simp add: request_map_def)
  have h5: "uploadOutcome env_ok =
      Resolved ''https://res.example/image/map.png'' ''campusnotes/image/map''"
    by (simp add: env_ok_def)
  have w: "writable world_a" "blobCalls world_a = []" by (simp_all add: world_a_def)
  have u1: "blobCalls (snd (upload_v1 env_ok request_map world_a)) =
      [UploadCall Image ''campusnotes/image'' (Some ''1704153599990_map'')]"
    by (simp add: upload_v1_def request_map_def map_png_def env_ok_def world_a_def
        getNotes_v1_def saveNotes_def existsSync_def readJSON_def writeFileSync_def Let_def)
  have u2: "blobCalls (snd (upload_v2 env_ok request_map world_a)) =
      [UploadCall Image ''campusnotes/image'' None]"
    by (simp add: upload_v2_def request_map_def map_png_def env_ok_def world_a_def
        newNote_v2_def addNote_def readFile_def writeFile_def readJSON_def writeFileSync_def
        Let_def)
  from upload_delete_same_resource_type [OF h1 h2 h3 h4 h5, of env_ok env_ok]
  have "blobCalls (snd (delete_v1 env_ok (nowId env_ok)
          (snd (upload_v1 env_ok request_map world_a)))) =
        [UploadCall Image ''campusnotes/image'' (Some ''1704153599990_map''),
         DestroyCall (Some (JStr ''campusnotes/image/map'')) Image]
      \<and> blobCalls (snd (delete_v2 env_ok (nowId env_ok)
          (snd (upload_v2 env_ok request_map world_a)))) =
        [UploadCall Image ''campusnotes/image'' None,
         DestroyCall (Some (JStr ''campusnotes/image/map'')) Image]"
    using w u1 u2 by auto
  then show ?thesis using h1 a h3 h4 h5 by simp
qed

end
